theory Spec2Isabelle
  imports Complex_Main "HOL-Library.Char_ord" "HOL-Library.List_Lexorder"
begin

section \<open>Python exceptions\<close>

text \<open>
  The exceptions the modelled code raises or lets through. \<open>KeyboardInterrupt\<close> stands for
  the exceptions that are not subclasses of \<open>Exception\<close>, which an \<open>except Exception\<close>
  clause does not catch. \<open>OtherError\<close> is any further subclass of \<open>Exception\<close> raised by
  library code. The string is the message; formatted numbers are left out of it.
\<close>

datatype exn =
    ImportError
  | RuntimeError string
  | ValueError string
  | KeyError string
  | OtherError string
  | KeyboardInterrupt

fun is_Exception :: "exn \<Rightarrow> bool" where
  "is_Exception KeyboardInterrupt = False"
| "is_Exception _ = True"

text \<open>The error kinds of the specification, as the source raises them.\<close>

definition NotFitted :: exn where
  "NotFitted = RuntimeError ''Vectorizer must be fitted before transform()''"

definition DimensionMismatch :: exn where
  "DimensionMismatch = ValueError ''Expected embeddings shape (N, embed_dim)''"

definition InsufficientOverlap :: exn where
  "InsufficientOverlap = ValueError ''Not enough overlapping data for a window''"

section \<open>Characters of the tokenizer\<close>

text \<open>
  The letters of ASCII and their lower-casing, for the model of the library's tokenizer
  below, which is evaluated on ASCII text only.
\<close>

definition is_upper :: "char \<Rightarrow> bool" where
  "is_upper c \<longleftrightarrow> CHR ''A'' \<le> c \<and> c \<le> CHR ''Z''"

definition is_lower :: "char \<Rightarrow> bool" where
  "is_lower c \<longleftrightarrow> CHR ''a'' \<le> c \<and> c \<le> CHR ''z''"

definition lower_char :: "char \<Rightarrow> char" where
  "lower_char c = (if is_upper c then char_of (of_char c + (32::nat)) else c)"

definition lower :: "string \<Rightarrow> string" where
  "lower s = map lower_char s"

section \<open>vectorizer.py\<close>

subsection \<open>The frequency-statistics backend used by the fallback\<close>

text \<open>
  Modelled from the spec: \<open>TfidfVectorizer\<close> is a class of the scikit-learn library, whose
  code is not part of the repository. Section 4.2: a term-weighting vectorizer with a
  capped dimension, whose \<open>fit\<close> builds vocabulary and weights from the corpus with a
  common-word exclusion list applied. What the specification leaves open follows the
  documentation of the library: the text is lower-cased, the tokens are the maximal runs
  of at least two word characters, the stop words are removed, and with \<open>max_features\<close>
  set the vocabulary keeps only the \<open>max_features\<close> most frequent terms of the corpus.
  The feature columns are the vocabulary in sorted order, so the width of a transformed
  row is the size of the vocabulary. The weights are term counts times the smoothed
  inverse document frequency, with each row scaled to unit length. The stop word list
  is a parameter.
\<close>

definition is_word_char :: "char \<Rightarrow> bool" where
  "is_word_char c \<longleftrightarrow>
     (CHR ''0'' \<le> c \<and> c \<le> CHR ''9'') \<or> is_upper c \<or> is_lower c \<or> c = CHR ''_''"

fun word_runs :: "string \<Rightarrow> string \<Rightarrow> string list" where
  "word_runs cur [] = (if cur = [] then [] else [rev cur])"
| "word_runs cur (c # cs) =
     (if is_word_char c then word_runs (c # cur) cs
      else (if cur = [] then [] else [rev cur]) @ word_runs [] cs)"

definition tokenize :: "string \<Rightarrow> string list" where
  "tokenize s = filter (\<lambda>t. 2 \<le> length t) (word_runs [] s)"

definition analyze :: "string list \<Rightarrow> string \<Rightarrow> string list" where
  "analyze stop s = filter (\<lambda>t. t \<notin> set stop) (tokenize (lower s))"

definition term_frequency :: "string list list \<Rightarrow> string \<Rightarrow> nat" where
  "term_frequency docs t = sum_list (map (\<lambda>d. count_list d t) docs)"

definition document_frequency :: "string list list \<Rightarrow> string \<Rightarrow> nat" where
  "document_frequency docs t = length (filter (\<lambda>d. t \<in> set d) docs)"

definition limit_features :: "nat \<Rightarrow> string list list \<Rightarrow> string list \<Rightarrow> string list" where
  "limit_features k docs terms =
     sort (take k (sort_key (\<lambda>t. - int (term_frequency docs t)) terms))"

record sk_tfidf =
  sk_max_features :: int
  sk_stop_words :: "string list"
  sk_vocabulary :: "string list option"
  sk_idf :: "real list"

definition sk_init :: "int \<Rightarrow> string list \<Rightarrow> sk_tfidf" where
  "sk_init mf stop =
     \<lparr>sk_max_features = mf, sk_stop_words = stop, sk_vocabulary = None, sk_idf = []\<rparr>"

definition sk_fit :: "sk_tfidf \<Rightarrow> string list \<Rightarrow> exn + sk_tfidf" where
  "sk_fit v texts =
     (if sk_max_features v \<le> 0 then Inl (ValueError ''max_features must be a positive integer'')
      else
        let docs = map (analyze (sk_stop_words v)) texts;
            terms = sort (remdups (concat docs));
            vocab = limit_features (nat (sk_max_features v)) docs terms
        in if vocab = [] then Inl (ValueError ''empty vocabulary'')
           else Inr (v\<lparr>sk_vocabulary := Some vocab,
                       sk_idf := map (\<lambda>t. ln ((1 + real (length docs)) /
                                              (1 + real (document_frequency docs t))) + 1) vocab\<rparr>))"

definition l2_normalize :: "real list \<Rightarrow> real list" where
  "l2_normalize xs =
     (let n = sqrt (sum_list (map (\<lambda>x. x * x) xs))
      in if n = 0 then xs else map (\<lambda>x. x / n) xs)"

definition sk_row :: "string list \<Rightarrow> real list \<Rightarrow> string list \<Rightarrow> real list" where
  "sk_row vocab idf toks =
     l2_normalize (map (\<lambda>(t, w). real (count_list toks t) * w) (zip vocab idf))"

definition sk_transform :: "sk_tfidf \<Rightarrow> string list \<Rightarrow> exn + real list list" where
  "sk_transform v texts =
     (case sk_vocabulary v of
        None \<Rightarrow> Inl (OtherError ''NotFittedError'')
      | Some vocab \<Rightarrow>
          Inr (map (\<lambda>s. sk_row vocab (sk_idf v) (analyze (sk_stop_words v) s)) texts))"

subsection \<open>TfidfVectorizerWrapper\<close>

record TfidfVectorizerWrapper =
  max_features :: int
  vectorizer :: sk_tfidf
  fitted :: bool

definition TfidfVectorizerWrapper_init :: "string list \<Rightarrow> int \<Rightarrow> TfidfVectorizerWrapper" where
  "TfidfVectorizerWrapper_init stop mf =
     \<lparr>max_features = mf, vectorizer = sk_init mf stop, fitted = False\<rparr>"

definition TfidfVectorizerWrapper_fit :: "TfidfVectorizerWrapper \<Rightarrow> string list \<Rightarrow> exn + TfidfVectorizerWrapper" where
  "TfidfVectorizerWrapper_fit self texts =
     (case sk_fit (vectorizer self) texts of
        Inl e \<Rightarrow> Inl e
      | Inr v \<Rightarrow> Inr (self\<lparr>vectorizer := v, fitted := True\<rparr>))"

definition TfidfVectorizerWrapper_transform :: "TfidfVectorizerWrapper \<Rightarrow> string list \<Rightarrow> exn + real list list" where
  "TfidfVectorizerWrapper_transform self texts =
     (if \<not> fitted self then Inl NotFitted
      else sk_transform (vectorizer self) texts)"

definition TfidfVectorizerWrapper_dim :: "TfidfVectorizerWrapper \<Rightarrow> int" where
  "TfidfVectorizerWrapper_dim self = max_features self"

subsection \<open>FinanceEmbeddingVectorizer\<close>

text \<open>
  The sentence-embedding runtime is outside the repository. It is a parameter: whether
  the lazy import succeeds, what loading a model by name gives, what moving it to a
  device gives, the dimension the model reports and what \<open>encode\<close> returns.
\<close>

record st_model =
  st_name :: string
  st_device :: "string option"

record st_runtime =
  st_import :: "exn option"
  st_load :: "string \<Rightarrow> exn + st_model"
  st_to :: "st_model \<Rightarrow> string \<Rightarrow> exn + st_model"
  st_dimension :: "st_model \<Rightarrow> exn + int"
  st_encode :: "st_model \<Rightarrow> string list \<Rightarrow> int \<Rightarrow> bool \<Rightarrow> exn + real list list"

record FinanceEmbeddingVectorizer =
  model :: st_model
  f_dim :: int
  f_normalize :: bool
  f_batch_size :: int
  f_fitted :: bool

definition move_to_device :: "st_runtime \<Rightarrow> st_model \<Rightarrow> string option \<Rightarrow> exn + st_model" where
  "move_to_device rt m device =
     (case device of
        None \<Rightarrow> Inr m
      | Some d \<Rightarrow>
          if d = [] then Inr m
          else (case st_to rt m d of
                  Inr m' \<Rightarrow> Inr m'
                | Inl e \<Rightarrow> if is_Exception e then Inr m else Inl e))"

definition FinanceEmbeddingVectorizer_init ::
  "st_runtime \<Rightarrow> string \<Rightarrow> string option \<Rightarrow> bool \<Rightarrow> int \<Rightarrow> exn + FinanceEmbeddingVectorizer" where
  "FinanceEmbeddingVectorizer_init rt model_name device normalize_flag batch_size =
     (case st_import rt of
        Some e \<Rightarrow> if is_Exception e then Inl ImportError else Inl e
      | None \<Rightarrow>
          (case st_load rt model_name of
             Inl e \<Rightarrow> Inl e
           | Inr m0 \<Rightarrow>
               (case move_to_device rt m0 device of
                  Inl e \<Rightarrow> Inl e
                | Inr m \<Rightarrow>
                    (case st_dimension rt m of
                       Inl e \<Rightarrow> Inl e
                     | Inr d \<Rightarrow>
                         Inr \<lparr>model = m, f_dim = d, f_normalize = normalize_flag,
                              f_batch_size = batch_size, f_fitted = True\<rparr>))))"

definition FinanceEmbeddingVectorizer_fit :: "FinanceEmbeddingVectorizer \<Rightarrow> string list \<Rightarrow> exn + FinanceEmbeddingVectorizer" where
  "FinanceEmbeddingVectorizer_fit self texts = Inr (self\<lparr>f_fitted := True\<rparr>)"

definition FinanceEmbeddingVectorizer_transform ::
  "st_runtime \<Rightarrow> FinanceEmbeddingVectorizer \<Rightarrow> string list \<Rightarrow> exn + real list list" where
  "FinanceEmbeddingVectorizer_transform rt self texts =
     (if \<not> f_fitted self then Inl NotFitted
      else if texts = [] then Inr []
      else st_encode rt (model self) texts (f_batch_size self) (f_normalize self))"

definition FinanceEmbeddingVectorizer_dim :: "FinanceEmbeddingVectorizer \<Rightarrow> int" where
  "FinanceEmbeddingVectorizer_dim self = f_dim self"

subsection \<open>The factory\<close>

datatype BaseVectorizer =
    Tfidf TfidfVectorizerWrapper
  | Finance FinanceEmbeddingVectorizer

definition get_vectorizer ::
  "st_runtime \<Rightarrow> string list \<Rightarrow> bool \<Rightarrow> int \<Rightarrow> string \<Rightarrow> string option \<Rightarrow> bool \<Rightarrow> int
     \<Rightarrow> exn + BaseVectorizer" where
  "get_vectorizer rt stop prefer_finance tfidf_dim finance_model device normalize_flag batch_size =
     (if prefer_finance then
        (case FinanceEmbeddingVectorizer_init rt finance_model device normalize_flag batch_size of
           Inr v \<Rightarrow> Inr (Finance v)
         | Inl e \<Rightarrow> Inl e)
      else Inr (Tfidf (TfidfVectorizerWrapper_init stop tfidf_dim)))"

fun fit :: "BaseVectorizer \<Rightarrow> string list \<Rightarrow> exn + BaseVectorizer" where
  "fit (Tfidf v) texts = (case TfidfVectorizerWrapper_fit v texts of Inl e \<Rightarrow> Inl e | Inr v' \<Rightarrow> Inr (Tfidf v'))"
| "fit (Finance v) texts = (case FinanceEmbeddingVectorizer_fit v texts of Inl e \<Rightarrow> Inl e | Inr v' \<Rightarrow> Inr (Finance v'))"

fun transform :: "st_runtime \<Rightarrow> BaseVectorizer \<Rightarrow> string list \<Rightarrow> exn + real list list" where
  "transform rt (Tfidf v) texts = TfidfVectorizerWrapper_transform v texts"
| "transform rt (Finance v) texts = FinanceEmbeddingVectorizer_transform rt v texts"

fun dim :: "BaseVectorizer \<Rightarrow> int" where
  "dim (Tfidf v) = TfidfVectorizerWrapper_dim v"
| "dim (Finance v) = FinanceEmbeddingVectorizer_dim v"

section \<open>db.py\<close>

text \<open>
  A numpy array is its shape and its elements in row-major order. Iterating over a
  two-dimensional array yields its rows. Floating-point numbers are idealised as reals
  throughout.
\<close>

record ndarray =
  shape :: "nat list"
  data :: "real list"

definition ndim :: "ndarray \<Rightarrow> nat" where
  "ndim a = length (shape a)"

definition iter_rows :: "ndarray \<Rightarrow> real list list" where
  "iter_rows a =
     (case shape a of
        [r, c] \<Rightarrow> map (\<lambda>i. take c (drop (i * c) (data a))) [0..<r]
      | _ \<Rightarrow> [])"

text \<open>
  The table \<open>document_embeddings\<close> is the list of its rows, in insertion order. The
  database is taken to accept every row the code sends.
\<close>

record db_row =
  col_ticker :: string
  col_doc_id :: string
  col_content :: string
  col_period :: string
  col_embedding :: "real list"

record VectorStore =
  embed_dim :: int
  document_embeddings :: "db_row list"

definition insert_documents ::
  "VectorStore \<Rightarrow> string \<Rightarrow> string list \<Rightarrow> string list \<Rightarrow> string list \<Rightarrow> ndarray
     \<Rightarrow> (exn + unit) \<times> VectorStore" where
  "insert_documents self ticker doc_ids contents period embeddings =
     (if ndim embeddings \<noteq> 2 \<or> int (shape embeddings ! 1) \<noteq> embed_dim self
      then (Inl DimensionMismatch, self)
      else
        (Inr (),
         self\<lparr>document_embeddings :=
                document_embeddings self @
                map (\<lambda>(doc_id, text, p, emb).
                       \<lparr>col_ticker = ticker, col_doc_id = doc_id, col_content = text,
                        col_period = p, col_embedding = emb\<rparr>)
                    (zip doc_ids (zip contents (zip period (iter_rows embeddings))))\<rparr>))"

section \<open>firm\_sim\_by\_period.py\<close>

text \<open>
  The joined table \<open>merged\<close> after the rows without an embedding are removed and the
  embeddings are parsed: one row per matched document, with its period (\<open>None\<close> is a
  missing value), the ticker of the metadata side and the vector.
\<close>

record merged_row =
  m_period :: "string option"
  ticker_x :: string
  vec :: "real list"

text \<open>\<open>groupby\<close> leaves out the rows whose key is missing and visits the keys in sorted order.\<close>

definition groupby_keys :: "merged_row list \<Rightarrow> string list" where
  "groupby_keys merged = sort (remdups (concat (map (\<lambda>r. case m_period r of None \<Rightarrow> [] | Some p \<Rightarrow> [p]) merged)))"

definition group :: "merged_row list \<Rightarrow> string \<Rightarrow> merged_row list" where
  "group merged p = filter (\<lambda>r. m_period r = Some p) merged"

definition np_vstack :: "real list list \<Rightarrow> exn + real list list" where
  "np_vstack vs =
     (case vs of
        [] \<Rightarrow> Inl (ValueError ''need at least one array to concatenate'')
      | v # rest \<Rightarrow>
          if \<forall>u \<in> set rest. length u = length v then Inr vs
          else Inl (ValueError ''all the input array dimensions must match''))"

definition mean_axis0 :: "real list list \<Rightarrow> real list" where
  "mean_axis0 m =
     (case m of
        [] \<Rightarrow> []
      | v # _ \<Rightarrow> map (\<lambda>j. sum_list (map (\<lambda>r. r ! j) m) / real (length m)) [0..<length v])"

definition dot :: "real list \<Rightarrow> real list \<Rightarrow> real" where
  "dot a b = sum_list (map2 (*) a b)"

definition l2_norm :: "real list \<Rightarrow> real" where
  "l2_norm a = sqrt (dot a a)"

text \<open>
  Modelled from the spec: \<open>cosine_similarity\<close> is a function of the scikit-learn
  library, whose code is not part of the repository. Section 4.4, step 4: the cosine
  similarity is \<open>dot(a,b) / (||a|| * ||b||)\<close>, defined as 0 when either norm is exactly 0.
  The library rejects two rows of different widths and rows without any feature.
\<close>

definition cosine_similarity :: "real list \<Rightarrow> real list \<Rightarrow> exn + real" where
  "cosine_similarity a b =
     (if length a \<noteq> length b then Inl (ValueError ''Incompatible dimension for X and Y matrices'')
      else if a = [] then Inl (ValueError ''Found array with 0 feature(s)'')
      else Inr (if l2_norm a = 0 \<or> l2_norm b = 0 then 0
                else dot a b / (l2_norm a * l2_norm b)))"

record sim_record =
  sim_period :: string
  ticker1 :: string
  ticker2 :: string
  sim_cosine_similarity :: real

definition firm_vec :: "merged_row list \<Rightarrow> string \<Rightarrow> exn + real list" where
  "firm_vec sub t =
     (case np_vstack (map vec (filter (\<lambda>r. ticker_x r = t) sub)) of
        Inl e \<Rightarrow> Inl e
      | Inr vecs \<Rightarrow> Inr (mean_axis0 vecs))"

definition period_rows :: "string \<Rightarrow> merged_row list \<Rightarrow> exn + sim_record list" where
  "period_rows p sub =
     (let tickers = set (map ticker_x sub)
      in if \<not> {''KO'', ''PEP''} \<subseteq> tickers then Inr []
         else
           (case firm_vec sub ''KO'' of
              Inl e \<Rightarrow> Inl e
            | Inr ko \<Rightarrow>
                (case firm_vec sub ''PEP'' of
                   Inl e \<Rightarrow> Inl e
                 | Inr pep \<Rightarrow>
                     (case cosine_similarity ko pep of
                        Inl e \<Rightarrow> Inl e
                      | Inr sim \<Rightarrow>
                          Inr [\<lparr>sim_period = p, ticker1 = ''KO'', ticker2 = ''PEP'',
                                sim_cosine_similarity = sim\<rparr>]))))"

fun similarity_rows :: "merged_row list \<Rightarrow> string list \<Rightarrow> exn + sim_record list" where
  "similarity_rows merged [] = Inr []"
| "similarity_rows merged (p # ps) =
     (case period_rows p (group merged p) of
        Inl e \<Rightarrow> Inl e
      | Inr new \<Rightarrow>
          (case similarity_rows merged ps of
             Inl e \<Rightarrow> Inl e
           | Inr rest \<Rightarrow> Inr (new @ rest)))"

text \<open>
  \<open>main\<close> from the grouping loop on. A frame built from an empty list of rows has no
  column \<open>period\<close>, so sorting it raises \<open>KeyError\<close>.
\<close>

definition main_similarity :: "merged_row list \<Rightarrow> exn + sim_record list" where
  "main_similarity merged =
     (case similarity_rows merged (groupby_keys merged) of
        Inl e \<Rightarrow> Inl e
      | Inr rows \<Rightarrow>
          if rows = [] then Inl (KeyError ''period'')
          else Inr (sort_key sim_period rows))"

section \<open>comovement\_new.py\<close>

text \<open>
  The arithmetic of numpy and pandas is library code. A float is a real number, an
  infinity or NaN; rounding and overflow of finite values and the sign of zero are left
  out. The operations follow IEEE 754 on the special values, as numpy does (with a
  warning, not an exception): a non-zero number divided by zero is an infinity, the
  logarithm of zero is minus infinity.
\<close>

datatype npfloat = Fin real | PosInf | NegInf | NaN

fun np_neg :: "npfloat \<Rightarrow> npfloat" where
  "np_neg (Fin x) = Fin (- x)"
| "np_neg PosInf = NegInf"
| "np_neg NegInf = PosInf"
| "np_neg NaN = NaN"

fun np_add :: "npfloat \<Rightarrow> npfloat \<Rightarrow> npfloat" where
  "np_add NaN _ = NaN"
| "np_add _ NaN = NaN"
| "np_add (Fin x) (Fin y) = Fin (x + y)"
| "np_add PosInf NegInf = NaN"
| "np_add NegInf PosInf = NaN"
| "np_add PosInf _ = PosInf"
| "np_add NegInf _ = NegInf"
| "np_add (Fin x) PosInf = PosInf"
| "np_add (Fin x) NegInf = NegInf"

definition np_sub :: "npfloat \<Rightarrow> npfloat \<Rightarrow> npfloat" where
  "np_sub a b = np_add a (np_neg b)"

definition signed_inf :: "bool \<Rightarrow> npfloat" where
  "signed_inf positive = (if positive then PosInf else NegInf)"

fun np_mul :: "npfloat \<Rightarrow> npfloat \<Rightarrow> npfloat" where
  "np_mul NaN _ = NaN"
| "np_mul _ NaN = NaN"
| "np_mul (Fin x) (Fin y) = Fin (x * y)"
| "np_mul (Fin x) PosInf = (if x = 0 then NaN else signed_inf (0 < x))"
| "np_mul (Fin x) NegInf = (if x = 0 then NaN else signed_inf (x < 0))"
| "np_mul PosInf (Fin y) = (if y = 0 then NaN else signed_inf (0 < y))"
| "np_mul NegInf (Fin y) = (if y = 0 then NaN else signed_inf (y < 0))"
| "np_mul PosInf PosInf = PosInf"
| "np_mul NegInf NegInf = PosInf"
| "np_mul PosInf NegInf = NegInf"
| "np_mul NegInf PosInf = NegInf"

fun np_div :: "npfloat \<Rightarrow> npfloat \<Rightarrow> npfloat" where
  "np_div NaN _ = NaN"
| "np_div _ NaN = NaN"
| "np_div (Fin x) (Fin y) =
     (if y = 0 then (if x = 0 then NaN else signed_inf (0 < x)) else Fin (x / y))"
| "np_div (Fin x) PosInf = Fin 0"
| "np_div (Fin x) NegInf = Fin 0"
| "np_div PosInf (Fin y) = signed_inf (0 \<le> y)"
| "np_div NegInf (Fin y) = signed_inf (y < 0)"
| "np_div PosInf _ = NaN"
| "np_div NegInf _ = NaN"

fun np_log :: "npfloat \<Rightarrow> npfloat" where
  "np_log (Fin x) = (if 0 < x then Fin (ln x) else if x = 0 then NegInf else NaN)"
| "np_log PosInf = PosInf"
| "np_log NegInf = NaN"
| "np_log NaN = NaN"


fun clip :: "real \<Rightarrow> real \<Rightarrow> npfloat \<Rightarrow> npfloat" where
  "clip lo hi (Fin x) = Fin (min hi (max lo x))"
| "clip lo hi PosInf = Fin hi"
| "clip lo hi NegInf = Fin lo"
| "clip lo hi NaN = NaN"

text \<open>A series is the list of its entries, index label (a day number) and value.\<close>

type_synonym series = "(int \<times> npfloat) list"

definition fisher_z_value :: "npfloat \<Rightarrow> npfloat" where
  "fisher_z_value x =
     (let r = clip (- 0.999999) 0.999999 x
      in np_mul (Fin 0.5) (np_log (np_div (np_add (Fin 1.0) r) (np_sub (Fin 1.0) r))))"

definition fisher_z :: "series \<Rightarrow> series" where
  "fisher_z s = map (\<lambda>(d, x). (d, fisher_z_value x)) s"


text \<open>
  Modelled from the spec: \<open>concat\<close>, \<open>dropna\<close> and \<open>rolling(window).corr\<close> are functions of
  the pandas library, whose code is not part of the repository. Section 4.5, step 2: the
  rolling Pearson correlation of the two return series over a fixed trailing window,
  where the first \<open>window - 1\<close> positions have no value. \<open>pd.concat(..., axis=1)\<close> is the
  outer join on the index; the return series come from price series sorted by date, and
  the joined index is the sorted union. \<open>dropna\<close> keeps the rows without a NaN. A window
  with fewer than two rows, with a value that is not finite or with a series that is
  constant has no correlation (NaN).
\<close>

definition series_get :: "series \<Rightarrow> int \<Rightarrow> npfloat" where
  "series_get s d = (case map_of s d of None \<Rightarrow> NaN | Some v \<Rightarrow> v)"

definition concat_axis1 :: "series \<Rightarrow> series \<Rightarrow> (int \<times> npfloat \<times> npfloat) list" where
  "concat_axis1 a b =
     map (\<lambda>d. (d, series_get a d, series_get b d)) (sort (remdups (map fst a @ map fst b)))"

definition frame_dropna :: "(int \<times> npfloat \<times> npfloat) list \<Rightarrow> (int \<times> npfloat \<times> npfloat) list" where
  "frame_dropna df = filter (\<lambda>(d, x, y). x \<noteq> NaN \<and> y \<noteq> NaN) df"

definition series_dropna :: "series \<Rightarrow> series" where
  "series_dropna s = filter (\<lambda>(d, x). x \<noteq> NaN) s"

definition mean :: "real list \<Rightarrow> real" where
  "mean xs = sum_list xs / real (length xs)"

definition pearson :: "real list \<Rightarrow> real list \<Rightarrow> npfloat" where
  "pearson xs ys =
     (if length xs < 2 then NaN
      else
        let mx = mean xs; my = mean ys;
            sxy = sum_list (map2 (\<lambda>x y. (x - mx) * (y - my)) xs ys);
            sxx = sum_list (map (\<lambda>x. (x - mx) * (x - mx)) xs);
            syy = sum_list (map (\<lambda>y. (y - my) * (y - my)) ys)
        in if sxx * syy = 0 then NaN else Fin (sxy / sqrt (sxx * syy)))"

fun fin_pair :: "int \<times> npfloat \<times> npfloat \<Rightarrow> (real \<times> real) option" where
  "fin_pair (d, Fin x, Fin y) = Some (x, y)"
| "fin_pair _ = None"

definition window_corr :: "(int \<times> npfloat \<times> npfloat) list \<Rightarrow> npfloat" where
  "window_corr w =
     (case those (map fin_pair w) of
        None \<Rightarrow> NaN
      | Some ps \<Rightarrow> pearson (map fst ps) (map snd ps))"

definition rolling_corr :: "nat \<Rightarrow> (int \<times> npfloat \<times> npfloat) list \<Rightarrow> series" where
  "rolling_corr window df =
     map (\<lambda>i. (fst (df ! i),
               if i + 1 < window then NaN
               else window_corr (take window (drop (i + 1 - window) df))))
         [0..<length df]"

definition compute_rolling_corr :: "series \<Rightarrow> series \<Rightarrow> int \<Rightarrow> exn + series" where
  "compute_rolling_corr ret_a ret_b window =
     (let df = frame_dropna (concat_axis1 ret_a ret_b)
      in if int (length df) < window then Inl InsufficientOverlap
         else if window < 0 then Inl (ValueError ''window must be an integer 0 or greater'')
         else Inr (series_dropna (rolling_corr (nat window) df)))"

section \<open>pdf\_reader.py\<close>

text \<open>
  A Python string is the list of its code points; \<open>str\<close> embeds an ASCII literal.
  What Python reads from the Unicode character database is a parameter of the model:
  which code points \<open>str.strip\<close> takes for whitespace, which \<open>\d\<close> takes for a decimal
  digit, and the upper-casing \<open>str.upper\<close> of a whole string (one code point may become
  several).
\<close>

type_synonym pystr = "nat list"

definition str :: "string \<Rightarrow> pystr" where
  "str s = map of_char s"

record unicode_tables =
  isspace :: "nat \<Rightarrow> bool"
  isdecimal :: "nat \<Rightarrow> bool"
  str_upper :: "pystr \<Rightarrow> pystr"

record Document =
  ticker :: pystr
  doc_id :: pystr
  doc_text :: pystr
  period :: pystr

text \<open>
  A file is its name and, page by page, what the PDF library extracts (\<open>None\<close> when it
  extracts nothing). An entry of the root directory is its name, whether it is a
  directory and the files in it.
\<close>

record pdf_file =
  file_name :: pystr
  pages :: "pystr option list"

record dir_entry =
  entry_name :: pystr
  is_dir :: bool
  files :: "pdf_file list"

fun join_lines :: "pystr list \<Rightarrow> pystr" where
  "join_lines [] = []"
| "join_lines [s] = s"
| "join_lines (s # t # ss) = s @ str [CHR 0x0A] @ join_lines (t # ss)"

definition extract_text_from_pdf :: "pdf_file \<Rightarrow> pystr" where
  "extract_text_from_pdf f =
     join_lines (map (\<lambda>p. case p of None \<Rightarrow> [] | Some t \<Rightarrow> t) (pages f))"

definition strip :: "unicode_tables \<Rightarrow> pystr \<Rightarrow> pystr" where
  "strip U s = rev (dropWhile (isspace U) (rev (dropWhile (isspace U) s)))"

text \<open>The pattern \<open>Q[1-4] \d{4}\<close> at the start of a string, and its leftmost match.\<close>

fun match_here :: "unicode_tables \<Rightarrow> pystr \<Rightarrow> pystr option" where
  "match_here U (q # n # sp # d1 # d2 # d3 # d4 # rest) =
     (if q = of_char CHR ''Q'' \<and> of_char CHR ''1'' \<le> n \<and> n \<le> of_char CHR ''4'' \<and>
         sp = of_char CHR '' '' \<and>
         isdecimal U d1 \<and> isdecimal U d2 \<and> isdecimal U d3 \<and> isdecimal U d4
      then Some [q, n, sp, d1, d2, d3, d4] else None)"
| "match_here U _ = None"

fun re_search :: "unicode_tables \<Rightarrow> pystr \<Rightarrow> pystr option" where
  "re_search U [] = None"
| "re_search U (c # cs) =
     (case match_here U (c # cs) of Some m \<Rightarrow> Some m | None \<Rightarrow> re_search U cs)"

definition is_pdf_name :: "pystr \<Rightarrow> bool" where
  "is_pdf_name n \<longleftrightarrow> 4 \<le> length n \<and> drop (length n - 4) n = str ''.pdf''"

definition documents_of_dir :: "unicode_tables \<Rightarrow> dir_entry \<Rightarrow> Document list" where
  "documents_of_dir U ticker_dir =
     concat (map (\<lambda>pdf_path.
                    let t = extract_text_from_pdf pdf_path
                    in if strip U t = [] then []
                       else [\<lparr>ticker = str_upper U (entry_name ticker_dir),
                               doc_id = file_name pdf_path,
                               doc_text = t,
                               period = (case re_search U t of Some m \<Rightarrow> m | None \<Rightarrow> [])\<rparr>])
                 (sort_key file_name (filter (\<lambda>f. is_pdf_name (file_name f)) (files ticker_dir))))"

definition iter_documents :: "unicode_tables \<Rightarrow> dir_entry list \<Rightarrow> Document list" where
  "iter_documents U root_dir =
     concat (map (\<lambda>ticker_dir. if \<not> is_dir ticker_dir then [] else documents_of_dir U ticker_dir)
                 (sort_key entry_name root_dir))"

text \<open>
  Tables for evaluating the code on examples. The whitespace is that of Python's
  \<open>str.isspace\<close>; the decimal digits and the upper-casing are given on ASCII and leave
  every other code point as it is, so the tables are Python's on a text whose letters
  and digits are ASCII.
\<close>

definition example_tables :: unicode_tables where
  "example_tables =
     \<lparr>isspace = (\<lambda>c. c \<in> set [9, 10, 11, 12, 13, 28, 29, 30, 31, 32, 133, 160, 5760,
                               8192, 8193, 8194, 8195, 8196, 8197, 8198, 8199, 8200, 8201, 8202,
                               8232, 8233, 8239, 8287, 12288]),
      isdecimal = (\<lambda>c. 48 \<le> c \<and> c \<le> 57),
      str_upper = map (\<lambda>c. if 97 \<le> c \<and> c \<le> 122 then c - 32 else c)\<rparr>"

section \<open>The properties of the specification, in its own words\<close>

text \<open>
  The pattern of a period label as the specification writes it, \<open>Q[1-4]\<close>, a space and
  four digits; what it is for a substring to be the first match; and the period the
  specification assigns to a text.
\<close>

definition spec_quarter_pattern :: "unicode_tables \<Rightarrow> pystr \<Rightarrow> bool" where
  "spec_quarter_pattern U m =
     (case m of
        [q, n, sp, d1, d2, d3, d4] \<Rightarrow>
          q = of_char CHR ''Q'' \<and> of_char CHR ''1'' \<le> n \<and> n \<le> of_char CHR ''4'' \<and>
          sp = of_char CHR '' '' \<and>
          isdecimal U d1 \<and> isdecimal U d2 \<and> isdecimal U d3 \<and> isdecimal U d4
      | _ \<Rightarrow> False)"

definition spec_first_match :: "unicode_tables \<Rightarrow> pystr \<Rightarrow> nat \<Rightarrow> pystr \<Rightarrow> bool" where
  "spec_first_match U t i m \<longleftrightarrow>
     m = take 7 (drop i t) \<and> spec_quarter_pattern U m \<and>
     list_all (\<lambda>j. \<not> spec_quarter_pattern U (take 7 (drop j t))) [0..<i]"

definition spec_period :: "unicode_tables \<Rightarrow> pystr \<Rightarrow> pystr \<Rightarrow> bool" where
  "spec_period U t p \<longleftrightarrow>
     (if list_ex (\<lambda>i. spec_quarter_pattern U (take 7 (drop i t))) [0..<length t]
      then list_ex (\<lambda>i. spec_first_match U t i p) [0..<length t]
      else p = [])"

text \<open>
  A period qualifies when the joined table has a row of that period for each of the two
  tickers. The vectors of a table are uniform when they all have the same positive width.
\<close>

definition spec_qualifies :: "merged_row list \<Rightarrow> string \<Rightarrow> bool" where
  "spec_qualifies merged p \<longleftrightarrow>
     list_ex (\<lambda>r. m_period r = Some p \<and> ticker_x r = ''KO'') merged \<and>
     list_ex (\<lambda>r. m_period r = Some p \<and> ticker_x r = ''PEP'') merged"

definition uniform_dim :: "nat \<Rightarrow> merged_row list \<Rightarrow> bool" where
  "uniform_dim d merged \<longleftrightarrow> 0 < d \<and> list_all (\<lambda>r. length (vec r) = d) merged"

text \<open>
  The number of overlapping observations of two series: the index labels at which
  neither has a missing value. The full windows of a frame: the positions from
  \<open>window - 1\<close> on, each with the correlation over the \<open>window\<close> rows that end there,
  where that correlation is defined.
\<close>

definition spec_overlap :: "series \<Rightarrow> series \<Rightarrow> nat" where
  "spec_overlap a b =
     length (filter (\<lambda>d. series_get a d \<noteq> NaN \<and> series_get b d \<noteq> NaN)
               (remdups (map fst a @ map fst b)))"

definition full_windows :: "nat \<Rightarrow> (int \<times> npfloat \<times> npfloat) list \<Rightarrow> series" where
  "full_windows w df =
     map (\<lambda>i. (fst (df ! i), window_corr (take w (drop (i + 1 - w) df))))
       (filter (\<lambda>i. window_corr (take w (drop (i + 1 - w) df)) \<noteq> NaN) [w - 1..<length df])"

section \<open>Results on vectorizer.py\<close>

lemma analyze_example: "analyze [''the'', ''and''] ''Revenue grew'' = [''revenue'', ''grew'']"
  by code_simp

lemma vocab_example:
  "limit_features 512 [[''revenue'', ''grew'']] (sort (remdups (concat [[''revenue'', ''grew'']])))
     = [''grew'', ''revenue'']"
  by code_simp

lemma length_l2_normalize: "length (l2_normalize xs) = length xs"
  by (simp add: l2_normalize_def Let_def)

lemma length_sk_row: "length (sk_row vocab idf toks) = min (length vocab) (length idf)"
  by (simp add: sk_row_def length_l2_normalize)

lemma fit_example:
  "\<exists>v'. TfidfVectorizerWrapper_fit (TfidfVectorizerWrapper_init [''the'', ''and''] 512) [''Revenue grew''] = Inr v'
     \<and> sk_vocabulary (vectorizer v') = Some [''grew'', ''revenue'']"
  by (simp add: TfidfVectorizerWrapper_fit_def TfidfVectorizerWrapper_init_def sk_fit_def sk_init_def
        analyze_example vocab_example Let_def del: concat.simps)


text \<open>
  C1: when the factory is called with the preference for the pretrained backend and the
  construction of \<open>FinanceEmbeddingVectorizer\<close> raises, the factory raises that same
  exception; with that preference it never returns a \<open>TfidfVectorizerWrapper\<close>.
\<close>

theorem get_vectorizer_reraises:
  assumes "FinanceEmbeddingVectorizer_init rt fm dev nf bs = Inl e"
  shows "get_vectorizer rt stop True td fm dev nf bs = Inl e
         \<and> (\<forall>w. get_vectorizer rt stop True td fm dev nf bs \<noteq> Inr (Tfidf w))"
  using assms by (simp add: get_vectorizer_def)

theorem get_vectorizer_reraises_witness:
  "FinanceEmbeddingVectorizer_init
      \<lparr>st_import = Some (OtherError ''DLL load failed''), st_load = (\<lambda>n. Inl (OtherError ''no model'')),
       st_to = (\<lambda>m d. Inr m), st_dimension = (\<lambda>m. Inr 768), st_encode = (\<lambda>m ts b n. Inr [])\<rparr>
      ''FinLang/finance-embeddings-investopedia'' None True 32 = Inl ImportError
   \<and> get_vectorizer
      \<lparr>st_import = Some (OtherError ''DLL load failed''), st_load = (\<lambda>n. Inl (OtherError ''no model'')),
       st_to = (\<lambda>m d. Inr m), st_dimension = (\<lambda>m. Inr 768), st_encode = (\<lambda>m ts b n. Inr [])\<rparr>
      [] True 512 ''FinLang/finance-embeddings-investopedia'' None True 32 = Inl ImportError"
proof -
  have h: "FinanceEmbeddingVectorizer_init
      \<lparr>st_import = Some (OtherError ''DLL load failed''), st_load = (\<lambda>n. Inl (OtherError ''no model'')),
       st_to = (\<lambda>m d. Inr m), st_dimension = (\<lambda>m. Inr 768), st_encode = (\<lambda>m ts b n. Inr [])\<rparr>
      ''FinLang/finance-embeddings-investopedia'' None True 32 = Inl ImportError"
    by (simp add: FinanceEmbeddingVectorizer_init_def)
  from get_vectorizer_reraises [OF h, of "[]" 512] have "get_vectorizer
      \<lparr>st_import = Some (OtherError ''DLL load failed''), st_load = (\<lambda>n. Inl (OtherError ''no model'')),
       st_to = (\<lambda>m d. Inr m), st_dimension = (\<lambda>m. Inr 768), st_encode = (\<lambda>m ts b n. Inr [])\<rparr>
      [] True 512 ''FinLang/finance-embeddings-investopedia'' None True 32 = Inl ImportError"
    by (rule conjunct1)
  with h show ?thesis by (rule conjI)
qed


text \<open>
  C9: \<open>transform\<close> on a \<open>TfidfVectorizerWrapper\<close> on which \<open>fit\<close> has not succeeded, a
  freshly constructed one in particular, raises the not-fitted \<open>RuntimeError\<close>; after a
  \<open>fit\<close> that returns, \<open>transform\<close> returns rows and does not raise it.
\<close>

theorem transform_NotFitted:
  "(\<not> fitted v \<longrightarrow> TfidfVectorizerWrapper_transform v texts = Inl NotFitted)
   \<and> TfidfVectorizerWrapper_transform (TfidfVectorizerWrapper_init stop mf) texts = Inl NotFitted
   \<and> (TfidfVectorizerWrapper_fit v corpus = Inr v' \<longrightarrow>
        fitted v' \<and> TfidfVectorizerWrapper_transform v' texts \<noteq> Inl NotFitted
        \<and> (\<exists>rows. TfidfVectorizerWrapper_transform v' texts = Inr rows))"
  by (auto simp: TfidfVectorizerWrapper_transform_def TfidfVectorizerWrapper_init_def
      TfidfVectorizerWrapper_fit_def sk_fit_def sk_transform_def Let_def NotFitted_def
      split: sum.splits if_splits option.splits)


theorem transform_NotFitted_witness:
  "\<not> fitted (TfidfVectorizerWrapper_init [''the'', ''and''] 512)
   \<and> TfidfVectorizerWrapper_transform (TfidfVectorizerWrapper_init [''the'', ''and''] 512)
        [''Revenue grew''] = Inl NotFitted
   \<and> (\<exists>v'. TfidfVectorizerWrapper_fit (TfidfVectorizerWrapper_init [''the'', ''and''] 512)
             [''Revenue grew''] = Inr v'
          \<and> fitted v' \<and> TfidfVectorizerWrapper_transform v' [''Revenue grew''] \<noteq> Inl NotFitted)"
proof -
  have a: "\<not> fitted (TfidfVectorizerWrapper_init [''the'', ''and''] 512)"
    by (simp add: TfidfVectorizerWrapper_init_def)
  obtain v' where f: "TfidfVectorizerWrapper_fit (TfidfVectorizerWrapper_init [''the'', ''and''] 512)
             [''Revenue grew''] = Inr v'"
    using fit_example by blast
  note t = transform_NotFitted [of "TfidfVectorizerWrapper_init [''the'', ''and''] 512"
      "[''Revenue grew'']" "[''the'', ''and'']" 512 "[''Revenue grew'']" v']
  from t a have 1: "TfidfVectorizerWrapper_transform (TfidfVectorizerWrapper_init [''the'', ''and''] 512)
        [''Revenue grew''] = Inl NotFitted" by blast
  from t f have 2: "fitted v' \<and> TfidfVectorizerWrapper_transform v' [''Revenue grew''] \<noteq> Inl NotFitted"
    by blast
  from a 1 2 f show ?thesis by blast
qed

text \<open>
  What holds of the fallback in general: \<open>transform\<close> returns one row per text, and
  no row is wider than \<open>dim\<close>.
\<close>

lemma length_limit_features: "length (limit_features k docs terms) \<le> k"
  by (simp add: limit_features_def)

lemma tfidf_width_le_dim:
  assumes "TfidfVectorizerWrapper_fit (TfidfVectorizerWrapper_init stop mf) corpus = Inr v'"
  shows "\<exists>rows. TfidfVectorizerWrapper_transform v' texts = Inr rows \<and> length rows = length texts
           \<and> (\<forall>r \<in> set rows. int (length r) \<le> TfidfVectorizerWrapper_dim v')"
proof -
  let ?docs = "map (analyze stop) corpus"
  let ?vocab = "limit_features (nat mf) ?docs (sort (remdups (concat ?docs)))"
  from assms have mf: "0 < mf" and v': "sk_vocabulary (vectorizer v') = Some ?vocab"
    "length (sk_idf (vectorizer v')) = length ?vocab" "fitted v'" "max_features v' = mf"
    by (auto simp: TfidfVectorizerWrapper_fit_def TfidfVectorizerWrapper_init_def sk_fit_def
        sk_init_def Let_def split: sum.splits if_splits)
  have "int (length ?vocab) \<le> mf"
    using length_limit_features [of "nat mf" ?docs "sort (remdups (concat ?docs))"] mf by linarith
  with v' show ?thesis
    by (simp add: TfidfVectorizerWrapper_transform_def sk_transform_def
        TfidfVectorizerWrapper_dim_def length_sk_row)
qed

text \<open>
  C3: the width of the rows of \<open>transform\<close> against \<open>dim\<close>. A fallback instance built
  with \<open>max_features = 512\<close> and fitted on a corpus with two distinct terms returns rows
  of width 2, while its \<open>dim\<close> is 512.
\<close>

theorem tfidf_width_failing:
  "\<exists>v' rows. TfidfVectorizerWrapper_fit (TfidfVectorizerWrapper_init [''the'', ''and''] 512) [''Revenue grew''] = Inr v'
     \<and> TfidfVectorizerWrapper_transform v' [''Revenue grew''] = Inr rows
     \<and> map length rows = [2]
     \<and> TfidfVectorizerWrapper_dim v' = 512"
  by (simp add: TfidfVectorizerWrapper_fit_def TfidfVectorizerWrapper_init_def sk_fit_def sk_init_def
        TfidfVectorizerWrapper_transform_def sk_transform_def TfidfVectorizerWrapper_dim_def
        analyze_example vocab_example Let_def length_sk_row del: concat.simps)


section \<open>Results on db.py\<close>

lemma length_iter_rows: "shape e = [n, d] \<Longrightarrow> length (iter_rows e) = n"
  by (simp add: iter_rows_def)

lemma nth_iter_rows: "shape e = [n, d] \<Longrightarrow> i < n \<Longrightarrow> iter_rows e ! i = take d (drop (i * d) (data e))"
  by (simp add: iter_rows_def)


text \<open>
  C4: a batch whose shape is not \<open>(N, embed_dim)\<close> makes \<open>insert_documents\<close> raise the
  shape \<open>ValueError\<close> and leaves the table as it was; a batch of shape \<open>(N, embed_dim)\<close>
  with at least \<open>N\<close> document ids, contents and periods is accepted and appends \<open>N\<close>
  rows after the rows already there.
\<close>

theorem insert_documents_validates:
  "((\<nexists>n d. shape emb = [n, d] \<and> int d = embed_dim self) \<longrightarrow>
      insert_documents self t ids cs ps emb = (Inl DimensionMismatch, self))
   \<and> (shape emb = [n, d] \<and> int d = embed_dim self \<and>
        n \<le> length ids \<and> n \<le> length cs \<and> n \<le> length ps \<longrightarrow>
      fst (insert_documents self t ids cs ps emb) = Inr () \<and>
      length (document_embeddings (snd (insert_documents self t ids cs ps emb)))
        = length (document_embeddings self) + n \<and>
      take (length (document_embeddings self))
        (document_embeddings (snd (insert_documents self t ids cs ps emb)))
        = document_embeddings self)"
proof (intro conjI impI)
  assume h: "\<nexists>n d. shape emb = [n, d] \<and> int d = embed_dim self"
  have "ndim emb \<noteq> 2 \<or> int (shape emb ! 1) \<noteq> embed_dim self"
  proof (cases "ndim emb = 2")
    case True
    then obtain n d where s: "shape emb = [n, d]"
      unfolding ndim_def by (metis (no_types, opaque_lifting) One_nat_def Suc_1 length_0_conv length_Suc_conv)
    with h show ?thesis by auto
  qed simp
  then show "insert_documents self t ids cs ps emb = (Inl DimensionMismatch, self)"
    unfolding insert_documents_def by (simp only: if_True)
next
  assume h: "shape emb = [n, d] \<and> int d = embed_dim self \<and>
        n \<le> length ids \<and> n \<le> length cs \<and> n \<le> length ps"
  then have ok: "\<not> (ndim emb \<noteq> 2 \<or> int (shape emb ! 1) \<noteq> embed_dim self)"
    by (simp add: ndim_def)
  show "fst (insert_documents self t ids cs ps emb) = Inr ()"
    unfolding insert_documents_def using ok by (simp only: if_False fst_conv)
  show "length (document_embeddings (snd (insert_documents self t ids cs ps emb)))
        = length (document_embeddings self) + n"
    unfolding insert_documents_def using ok h by (simp add: length_iter_rows)
  show "take (length (document_embeddings self))
        (document_embeddings (snd (insert_documents self t ids cs ps emb)))
        = document_embeddings self"
    unfolding insert_documents_def using ok by simp
qed


theorem insert_documents_validates_witness:
  "insert_documents \<lparr>embed_dim = 2, document_embeddings = []\<rparr> ''KO'' [''a.pdf''] [''text'']
      [''Q1 2020''] \<lparr>shape = [1, 3], data = [1, 2, 3]\<rparr>
     = (Inl DimensionMismatch, \<lparr>embed_dim = 2, document_embeddings = []\<rparr>)
   \<and> fst (insert_documents \<lparr>embed_dim = 2, document_embeddings = []\<rparr> ''KO'' [''a.pdf''] [''text'']
      [''Q1 2020''] \<lparr>shape = [1, 2], data = [1, 2]\<rparr>) = Inr ()
   \<and> length (document_embeddings (snd (insert_documents \<lparr>embed_dim = 2, document_embeddings = []\<rparr>
      ''KO'' [''a.pdf''] [''text''] [''Q1 2020''] \<lparr>shape = [1, 2], data = [1, 2]\<rparr>))) = 1"
proof -
  have bad: "\<nexists>n d. shape \<lparr>shape = [1, 3], data = [1, 2, 3]\<rparr> = [n, d]
      \<and> int d = embed_dim \<lparr>embed_dim = 2, document_embeddings = []\<rparr>"
    by simp
  have good: "shape \<lparr>shape = [1, 2], data = [1, 2]\<rparr> = [1, 2]
      \<and> int 2 = embed_dim \<lparr>embed_dim = 2, document_embeddings = []\<rparr>
      \<and> 1 \<le> length [''a.pdf''] \<and> 1 \<le> length [''text''] \<and> 1 \<le> length [''Q1 2020'']"
    by simp
  from bad insert_documents_validates
    [of "\<lparr>shape = [1, 3], data = [1, 2, 3]\<rparr>" "\<lparr>embed_dim = 2, document_embeddings = []\<rparr>"
       "''KO''" "[''a.pdf'']" "[''text'']" "[''Q1 2020'']"]
  have 1: "insert_documents \<lparr>embed_dim = 2, document_embeddings = []\<rparr> ''KO'' [''a.pdf''] [''text'']
      [''Q1 2020''] \<lparr>shape = [1, 3], data = [1, 2, 3]\<rparr>
     = (Inl DimensionMismatch, \<lparr>embed_dim = 2, document_embeddings = []\<rparr>)"
    by blast
  from good insert_documents_validates
    [of "\<lparr>shape = [1, 2], data = [1, 2]\<rparr>" "\<lparr>embed_dim = 2, document_embeddings = []\<rparr>"
       "''KO''" "[''a.pdf'']" "[''text'']" "[''Q1 2020'']" 1 2]
  have 2: "fst (insert_documents \<lparr>embed_dim = 2, document_embeddings = []\<rparr> ''KO'' [''a.pdf''] [''text'']
      [''Q1 2020''] \<lparr>shape = [1, 2], data = [1, 2]\<rparr>) = Inr ()
   \<and> length (document_embeddings (snd (insert_documents \<lparr>embed_dim = 2, document_embeddings = []\<rparr>
      ''KO'' [''a.pdf''] [''text''] [''Q1 2020''] \<lparr>shape = [1, 2], data = [1, 2]\<rparr>))) = 1"
    by simp
  from 1 2 show ?thesis by blast
qed

text \<open>
  C10: no check compares the lengths of the parallel sequences. A batch of shape
  \<open>(N, embed_dim)\<close> is accepted whatever the lengths of the document ids, contents and
  periods, and exactly as many rows as the shortest of the four has elements are
  appended, the \<open>i\<close>-th made of the \<open>i\<close>-th element of each; what is left over is dropped.
\<close>

theorem insert_documents_truncates:
  assumes "shape emb = [n, d]" and "int d = embed_dim self"
  shows "\<exists>new. insert_documents self t ids cs ps emb
            = (Inr (), self\<lparr>document_embeddings := document_embeddings self @ new\<rparr>)
          \<and> length new = Min {length ids, length cs, length ps, n}
          \<and> (\<forall>i < length new. new ! i =
                \<lparr>col_ticker = t, col_doc_id = ids ! i, col_content = cs ! i,
                 col_period = ps ! i, col_embedding = take d (drop (i * d) (data emb))\<rparr>)"
proof -
  have ok: "\<not> (ndim emb \<noteq> 2 \<or> int (shape emb ! 1) \<noteq> embed_dim self)"
    using assms by (simp add: ndim_def)
  let ?new = "map (\<lambda>(doc_id, text, p, emb).
                       \<lparr>col_ticker = t, col_doc_id = doc_id, col_content = text,
                        col_period = p, col_embedding = emb\<rparr>)
                    (zip ids (zip cs (zip ps (iter_rows emb))))"
  have 1: "insert_documents self t ids cs ps emb
            = (Inr (), self\<lparr>document_embeddings := document_embeddings self @ ?new\<rparr>)"
    unfolding insert_documents_def using ok by (simp only: if_False)
  have 2: "length ?new = Min {length ids, length cs, length ps, n}"
    using assms by (simp add: length_iter_rows min.assoc)
  have 3: "\<forall>i < length ?new. ?new ! i =
                \<lparr>col_ticker = t, col_doc_id = ids ! i, col_content = cs ! i,
                 col_period = ps ! i, col_embedding = take d (drop (i * d) (data emb))\<rparr>"
    using assms by (simp add: length_iter_rows nth_iter_rows)
  from 1 2 3 show ?thesis by blast
qed


theorem insert_documents_truncates_witness:
  "shape \<lparr>shape = [3, 2], data = [1, 2, 3, 4, 5, 6]\<rparr> = [3, 2]
   \<and> int 2 = embed_dim \<lparr>embed_dim = 2, document_embeddings = []\<rparr>
   \<and> insert_documents \<lparr>embed_dim = 2, document_embeddings = []\<rparr> ''KO'' [''a.pdf'']
        [''text a'', ''text b''] [''Q1 2020'', ''Q2 2020'', ''Q3 2020'', ''Q4 2020'']
        \<lparr>shape = [3, 2], data = [1, 2, 3, 4, 5, 6]\<rparr>
     = (Inr (), \<lparr>embed_dim = 2, document_embeddings =
          [\<lparr>col_ticker = ''KO'', col_doc_id = ''a.pdf'', col_content = ''text a'',
            col_period = ''Q1 2020'', col_embedding = [1, 2]\<rparr>]\<rparr>)"
proof -
  have h1: "shape \<lparr>shape = [3, 2], data = [1, 2, 3, 4, 5, 6]\<rparr> = [3, 2]" by simp
  have h2: "int 2 = embed_dim \<lparr>embed_dim = 2, document_embeddings = []\<rparr>" by simp
  from insert_documents_truncates [OF h1 h2, of "''KO''" "[''a.pdf'']" "[''text a'', ''text b'']"
      "[''Q1 2020'', ''Q2 2020'', ''Q3 2020'', ''Q4 2020'']"]
  obtain new where n: "insert_documents \<lparr>embed_dim = 2, document_embeddings = []\<rparr> ''KO'' [''a.pdf'']
        [''text a'', ''text b''] [''Q1 2020'', ''Q2 2020'', ''Q3 2020'', ''Q4 2020'']
        \<lparr>shape = [3, 2], data = [1, 2, 3, 4, 5, 6]\<rparr>
       = (Inr (), \<lparr>embed_dim = 2, document_embeddings = []\<rparr>
            \<lparr>document_embeddings := document_embeddings \<lparr>embed_dim = 2, document_embeddings = []\<rparr> @ new\<rparr>)"
    and l: "length new = Min {length [''a.pdf''], length [''text a'', ''text b''],
        length [''Q1 2020'', ''Q2 2020'', ''Q3 2020'', ''Q4 2020''], 3}"
    and c: "\<forall>i < length new. new ! i =
        \<lparr>col_ticker = ''KO'', col_doc_id = [''a.pdf''] ! i, col_content = [''text a'', ''text b''] ! i,
         col_period = [''Q1 2020'', ''Q2 2020'', ''Q3 2020'', ''Q4 2020''] ! i,
         col_embedding = take 2 (drop (i * 2) (data \<lparr>shape = [3, 2], data = [1, 2, 3, 4, 5, 6]\<rparr>))\<rparr>"
    by blast
  from l have l1: "length new = 1" by simp
  with c have "new ! 0 = \<lparr>col_ticker = ''KO'', col_doc_id = ''a.pdf'', col_content = ''text a'',
         col_period = ''Q1 2020'', col_embedding = [1, 2]\<rparr>" by simp
  with l1 have "new = [\<lparr>col_ticker = ''KO'', col_doc_id = ''a.pdf'', col_content = ''text a'',
         col_period = ''Q1 2020'', col_embedding = [1, 2]\<rparr>]"
    by (cases new) simp_all
  with n h1 h2 show ?thesis by simp
qed

section \<open>Results on firm\_sim\_by\_period.py\<close>

subsection \<open>The Cauchy-Schwarz inequality for lists\<close>

lemma sum_list_quadratic:
  "sum_list (map (\<lambda>(x, y). (p * x - q * y) * (p * x - q * y)) zs)
     = p * p * sum_list (map (\<lambda>(x, y). x * x) zs)
       - 2 * p * q * sum_list (map (\<lambda>(x, y). x * y) zs)
       + q * q * sum_list (map (\<lambda>(x, y). y * y) zs)" for p q :: real
  by (induction zs) (auto simp: algebra_simps)

lemma sum_list_zip_fst: "length a = length b \<Longrightarrow> sum_list (map (\<lambda>(x, y). x * x) (zip a b)) = dot a a"
  by (induction a b rule: list_induct2) (simp_all add: dot_def)

lemma sum_list_zip_snd: "length a = length b \<Longrightarrow> sum_list (map (\<lambda>(x, y). y * y) (zip a b)) = dot b b"
  by (induction a b rule: list_induct2) (simp_all add: dot_def)

lemma dot_commute: "dot a b = dot b a"
proof -
  have "map2 (*) a b = map2 (*) b a" for a b :: "real list"
  proof (induction a arbitrary: b)
    case Nil
    then show ?case by simp
  next
    case (Cons x xs)
    then show ?case by (cases b) (simp_all add: mult.commute)
  qed
  then show ?thesis by (simp add: dot_def)
qed

lemma dot_self_nonneg: "0 \<le> dot a a"
  by (induction a) (simp_all add: dot_def)

lemma dot_self_zero: "dot b b = 0 \<Longrightarrow> length a = length b \<Longrightarrow> dot a b = 0"
proof (induction a b rule: list_induct2')
  case (4 x xs y ys)
  have n: "0 \<le> dot ys ys" by (rule dot_self_nonneg)
  from 4(2) have e: "y * y + dot ys ys = 0" by (simp add: dot_def)
  have "0 \<le> y * y" by simp
  with e n have "y * y = 0" "dot ys ys = 0" by linarith+
  with 4 show ?case by (simp add: dot_def)
qed (simp_all add: dot_def)

lemma Cauchy_Schwarz_dot:
  assumes "length a = length b"
  shows "dot a b * dot a b \<le> dot a a * dot b b"
proof (cases "dot b b = 0")
  case True
  with assms have "dot a b = 0" by (simp add: dot_self_zero)
  with True show ?thesis by simp
next
  case False
  with dot_self_nonneg [of b] have B: "0 < dot b b" by simp
  have "0 \<le> sum_list (map (\<lambda>(x, y). (dot b b * x - dot a b * y) * (dot b b * x - dot a b * y)) (zip a b))"
    by (rule sum_list_nonneg) auto
  also have "\<dots> = dot b b * dot b b * dot a a - 2 * dot b b * dot a b * dot a b
                    + dot a b * dot a b * dot b b"
    using assms by (simp add: sum_list_quadratic sum_list_zip_fst sum_list_zip_snd dot_def)
  also have "\<dots> = dot b b * (dot a a * dot b b - dot a b * dot a b)"
    by (simp add: algebra_simps)
  finally have "0 \<le> dot a a * dot b b - dot a b * dot a b"
    using B by (simp add: zero_le_mult_iff)
  then show ?thesis by simp
qed

lemma abs_dot_le: 
  assumes "length a = length b"
  shows "\<bar>dot a b\<bar> \<le> l2_norm a * l2_norm b"
proof -
  have "\<bar>dot a b\<bar> = sqrt (dot a b * dot a b)" by simp
  also have "\<dots> \<le> sqrt (dot a a * dot b b)"
    using Cauchy_Schwarz_dot [OF assms] by (simp only: real_sqrt_le_iff)
  also have "\<dots> = l2_norm a * l2_norm b"
    by (simp add: l2_norm_def real_sqrt_mult)
  finally show ?thesis .
qed

lemma l2_norm_nonneg: "0 \<le> l2_norm a"
  by (simp add: l2_norm_def dot_self_nonneg)

text \<open>
  C5: for two vectors of the same positive width the cosine similarity is the same in
  both orders, lies between -1 and 1, is \<open>dot(a,b) / (||a|| * ||b||)\<close> when both norms
  are non-zero and is 0 when either norm is 0. Floats are idealised as reals.
\<close>

theorem cosine_similarity_properties:
  assumes "length a = length b" and "a \<noteq> []"
  shows "\<exists>c. cosine_similarity a b = Inr c \<and> cosine_similarity b a = Inr c
           \<and> - 1 \<le> c \<and> c \<le> 1
           \<and> (l2_norm a \<noteq> 0 \<and> l2_norm b \<noteq> 0 \<longrightarrow> c = dot a b / (l2_norm a * l2_norm b))
           \<and> (l2_norm a = 0 \<or> l2_norm b = 0 \<longrightarrow> c = 0)"
proof -
  let ?c = "if l2_norm a = 0 \<or> l2_norm b = 0 then 0 else dot a b / (l2_norm a * l2_norm b)"
  from assms have bne: "b \<noteq> []" by auto
  have 1: "cosine_similarity a b = Inr ?c"
    using assms by (simp add: cosine_similarity_def)
  have 2: "cosine_similarity b a = Inr ?c"
    using assms bne by (auto simp: cosine_similarity_def dot_commute mult.commute)
  have 3: "\<bar>?c\<bar> \<le> 1"
  proof (cases "l2_norm a = 0 \<or> l2_norm b = 0")
    case True
    then show ?thesis by simp
  next
    case False
    with l2_norm_nonneg [of a] l2_norm_nonneg [of b] have p: "0 < l2_norm a * l2_norm b"
      by (simp add: less_le)
    have "\<bar>dot a b / (l2_norm a * l2_norm b)\<bar> = \<bar>dot a b\<bar> / (l2_norm a * l2_norm b)"
      using p by (simp only: abs_divide abs_of_pos)
    also have "\<dots> \<le> 1"
      using p abs_dot_le [OF assms(1)] by (simp add: divide_le_eq)
    finally show ?thesis using False by simp
  qed
  then have 4: "- 1 \<le> ?c" "?c \<le> 1" by (simp_all add: abs_le_iff)
  have 5: "l2_norm a \<noteq> 0 \<and> l2_norm b \<noteq> 0 \<longrightarrow> ?c = dot a b / (l2_norm a * l2_norm b)" by simp
  have 6: "l2_norm a = 0 \<or> l2_norm b = 0 \<longrightarrow> ?c = 0" by simp
  from 1 2 4 5 6 show ?thesis by blast
qed

theorem cosine_similarity_properties_witness:
  "length [3, 4 :: real] = length [4, 3 :: real] \<and> [3, 4 :: real] \<noteq> []
   \<and> (\<exists>c. cosine_similarity [3, 4] [4, 3] = Inr c \<and> cosine_similarity [4, 3] [3, 4] = Inr c
          \<and> - 1 \<le> c \<and> c \<le> 1)
   \<and> cosine_similarity [0, 0] [4, 3] = Inr 0"
proof -
  have h1: "length [3, 4 :: real] = length [4, 3 :: real]" by simp
  have h2: "[3, 4 :: real] \<noteq> []" by simp
  have h3: "length [0, 0 :: real] = length [4, 3 :: real]" by simp
  have h4: "[0, 0 :: real] \<noteq> []" by simp
  have z: "l2_norm [0, 0] = 0" by (simp add: l2_norm_def dot_def)
  from cosine_similarity_properties [OF h1 h2]
  have a: "\<exists>c. cosine_similarity [3, 4] [4, 3] = Inr c \<and> cosine_similarity [4, 3] [3, 4] = Inr c
          \<and> - 1 \<le> c \<and> c \<le> 1" by blast
  from cosine_similarity_properties [OF h3 h4] z
  have b: "cosine_similarity [0, 0] [4, 3] = Inr 0" by auto
  from h1 h2 a b show ?thesis by blast
qed

subsection \<open>The periods of the output\<close>

lemma set_groupby_keys: "set (groupby_keys merged) = {p. \<exists>r \<in> set merged. m_period r = Some p}"
  by (auto simp: groupby_keys_def split: option.splits)

lemma distinct_groupby_keys: "distinct (groupby_keys merged)"
  by (simp add: groupby_keys_def)

lemma subset_group_iff:
  "{''KO'', ''PEP''} \<subseteq> set (map ticker_x (group merged p)) \<longleftrightarrow> spec_qualifies merged p"
  by (force simp: group_def spec_qualifies_def list_ex_iff)

lemma period_rows_Inr:
  assumes "period_rows p (group merged p) = Inr new"
  shows "(spec_qualifies merged p \<longrightarrow> (\<exists>s. new = [\<lparr>sim_period = p, ticker1 = ''KO'', ticker2 = ''PEP'',
                                sim_cosine_similarity = s\<rparr>]))
         \<and> (\<not> spec_qualifies merged p \<longrightarrow> new = [])"
  using assms subset_group_iff [of merged p]
  by (auto simp: period_rows_def Let_def simp del: set_map insert_subset split: if_splits sum.splits)

lemma similarity_rows_periods:
  "similarity_rows merged ps = Inr rows \<Longrightarrow>
     map sim_period rows = filter (spec_qualifies merged) ps"
proof (induction ps arbitrary: rows)
  case Nil
  then show ?case by simp
next
  case (Cons p ps)
  from Cons.prems obtain new rest where
    n: "period_rows p (group merged p) = Inr new" and
    r: "similarity_rows merged ps = Inr rest" and
    e: "rows = new @ rest"
    by (auto split: sum.splits)
  from Cons.IH [OF r] have ih: "map sim_period rest = filter (spec_qualifies merged) ps" .
  from period_rows_Inr [OF n] ih e show ?case
    by (cases "spec_qualifies merged p") auto
qed

lemma np_vstack_uniform:
  assumes "vs \<noteq> []" and "\<forall>v \<in> set vs. length v = d"
  shows "np_vstack vs = Inr vs"
  using assms by (cases vs) (auto simp: np_vstack_def)

lemma length_mean_axis0:
  assumes "vs \<noteq> []" and "\<forall>v \<in> set vs. length v = d"
  shows "length (mean_axis0 vs) = d"
  using assms by (cases vs) (auto simp: mean_axis0_def)

lemma firm_vec_uniform:
  assumes "uniform_dim d merged" and "\<exists>r \<in> set (group merged p). ticker_x r = t"
  shows "\<exists>v. firm_vec (group merged p) t = Inr v \<and> length v = d"
proof -
  let ?vs = "map vec (filter (\<lambda>r. ticker_x r = t) (group merged p))"
  from assms(2) have ne: "?vs \<noteq> []" by (auto simp: filter_empty_conv)
  from assms(1) have u: "\<forall>v \<in> set ?vs. length v = d"
    by (auto simp: uniform_dim_def list_all_iff group_def)
  from np_vstack_uniform [OF ne u] length_mean_axis0 [OF ne u] show ?thesis
    by (simp add: firm_vec_def)
qed

lemma period_rows_uniform:
  assumes "uniform_dim d merged"
  shows "\<exists>new. period_rows p (group merged p) = Inr new"
proof (cases "spec_qualifies merged p")
  case False
  then show ?thesis
    using subset_group_iff [of merged p]
    by (simp add: period_rows_def Let_def del: set_map insert_subset)
next
  case True
  then have s: "{''KO'', ''PEP''} \<subseteq> set (map ticker_x (group merged p))"
    by (simp only: subset_group_iff)
  then have "\<exists>r \<in> set (group merged p). ticker_x r = ''KO''"
    "\<exists>r \<in> set (group merged p). ticker_x r = ''PEP''" by auto
  with assms obtain ko pep where
    ko: "firm_vec (group merged p) ''KO'' = Inr ko" "length ko = d" and
    pep: "firm_vec (group merged p) ''PEP'' = Inr pep" "length pep = d"
    using firm_vec_uniform by blast
  from assms have "0 < d" by (simp add: uniform_dim_def)
  with ko pep have "\<exists>c. cosine_similarity ko pep = Inr c"
    by (auto simp: cosine_similarity_def)
  with s ko pep show ?thesis
    by (auto simp: period_rows_def Let_def simp del: set_map insert_subset)
qed

lemma similarity_rows_uniform:
  assumes "uniform_dim d merged"
  shows "\<exists>rows. similarity_rows merged ps = Inr rows"
proof (induction ps)
  case Nil
  then show ?case by simp
next
  case (Cons p ps)
  with period_rows_uniform [OF assms, of p] show ?case by auto
qed

text \<open>
  C2: when \<open>main\<close> returns, the periods of its records are exactly the periods of the
  grouped table in which both \<open>KO\<close> and \<open>PEP\<close> have a row, each once; a period with only
  one of the two has no record. With vectors of one positive width \<open>main\<close> returns
  unless no period qualifies, in which case sorting the empty frame raises \<open>KeyError\<close>.
\<close>

theorem main_similarity_periods:
  "(main_similarity merged = Inr out \<longrightarrow>
      set (map sim_period out) = {p \<in> set (groupby_keys merged). spec_qualifies merged p}
      \<and> distinct (map sim_period out))
   \<and> (uniform_dim d merged \<longrightarrow>
        (case main_similarity merged of
           Inr out \<Rightarrow> True
         | Inl e \<Rightarrow> e = KeyError ''period'' \<and> (\<forall>p. \<not> spec_qualifies merged p)))"
proof (intro conjI impI)
  assume m: "main_similarity merged = Inr out"
  then obtain rows where r: "similarity_rows merged (groupby_keys merged) = Inr rows"
    and o: "out = sort_key sim_period rows"
    by (auto simp: main_similarity_def split: sum.splits if_splits)
  from similarity_rows_periods [OF r]
  have p: "map sim_period rows = filter (spec_qualifies merged) (groupby_keys merged)" .
  have s: "set (map sim_period out) = set (map sim_period rows)"
    unfolding o by simp
  have d: "distinct (map sim_period out) = distinct (map sim_period rows)"
    unfolding o by (simp add: distinct_map)
  from s p show "set (map sim_period out) = {p \<in> set (groupby_keys merged). spec_qualifies merged p}"
    by simp
  from d p show "distinct (map sim_period out)"
    by (simp add: distinct_groupby_keys)
next
  assume u: "uniform_dim d merged"
  then obtain rows where r: "similarity_rows merged (groupby_keys merged) = Inr rows"
    using similarity_rows_uniform by blast
  from similarity_rows_periods [OF r]
  have p: "map sim_period rows = filter (spec_qualifies merged) (groupby_keys merged)" .
  show "case main_similarity merged of
           Inr out \<Rightarrow> True
         | Inl e \<Rightarrow> e = KeyError ''period'' \<and> (\<forall>p. \<not> spec_qualifies merged p)"
  proof (cases "rows = []")
    case False
    with r show ?thesis by (simp add: main_similarity_def)
  next
    case True
    with p have "filter (spec_qualifies merged) (groupby_keys merged) = []" by simp
    then have "\<forall>p \<in> set (groupby_keys merged). \<not> spec_qualifies merged p"
      by (simp add: filter_empty_conv)
    moreover have "spec_qualifies merged p \<Longrightarrow> p \<in> set (groupby_keys merged)" for p
      by (auto simp: set_groupby_keys spec_qualifies_def list_ex_iff)
    ultimately have "\<forall>p. \<not> spec_qualifies merged p" by blast
    with True r show ?thesis by (simp add: main_similarity_def)
  qed
qed

theorem main_similarity_periods_witness:
  "uniform_dim 2
     [\<lparr>m_period = Some ''2020Q1'', ticker_x = ''KO'', vec = [1, 0]\<rparr>,
      \<lparr>m_period = Some ''2020Q2'', ticker_x = ''KO'', vec = [1, 0]\<rparr>,
      \<lparr>m_period = Some ''2020Q2'', ticker_x = ''PEP'', vec = [0, 1]\<rparr>]
   \<and> (\<exists>out. main_similarity
     [\<lparr>m_period = Some ''2020Q1'', ticker_x = ''KO'', vec = [1, 0]\<rparr>,
      \<lparr>m_period = Some ''2020Q2'', ticker_x = ''KO'', vec = [1, 0]\<rparr>,
      \<lparr>m_period = Some ''2020Q2'', ticker_x = ''PEP'', vec = [0, 1]\<rparr>] = Inr out
      \<and> set (map sim_period out) = {''2020Q2''})"
proof -
  let ?m = "[\<lparr>m_period = Some ''2020Q1'', ticker_x = ''KO'', vec = [1, 0]\<rparr>,
      \<lparr>m_period = Some ''2020Q2'', ticker_x = ''KO'', vec = [1, 0]\<rparr>,
      \<lparr>m_period = Some ''2020Q2'', ticker_x = ''PEP'', vec = [0, 1 :: real]\<rparr>]"
  have u: "uniform_dim 2 ?m" by (simp add: uniform_dim_def)
  have q: "spec_qualifies ?m ''2020Q2''" by (simp add: spec_qualifies_def)
  have k: "{p \<in> set (groupby_keys ?m). spec_qualifies ?m p} = {''2020Q2''}"
    by (auto simp: set_groupby_keys spec_qualifies_def)
  note t = main_similarity_periods [of ?m _ 2]
  from t u q obtain out where o: "main_similarity ?m = Inr out"
    by (cases "main_similarity ?m") auto
  from main_similarity_periods [of ?m out 2] o k
  have "set (map sim_period out) = {''2020Q2''}" by simp
  with u o show ?thesis by blast
qed

section \<open>Results on comovement\_new.py\<close>




text \<open>Without the clipping the transform is infinite at 1 and at -1.\<close>

lemma unclipped_is_infinite:
  "np_mul (Fin 0.5) (np_log (np_div (np_add (Fin 1.0) (Fin 1)) (np_sub (Fin 1.0) (Fin 1)))) = PosInf
   \<and> np_mul (Fin 0.5) (np_log (np_div (np_add (Fin 1.0) (Fin (- 1))) (np_sub (Fin 1.0) (Fin (- 1))))) = NegInf"
  by (simp add: np_sub_def signed_inf_def)




lemma length_frame_dropna: "length (frame_dropna (concat_axis1 a b)) = spec_overlap a b"
proof -
  have "frame_dropna (concat_axis1 a b)
      = map (\<lambda>d. (d, series_get a d, series_get b d))
          (filter (\<lambda>d. series_get a d \<noteq> NaN \<and> series_get b d \<noteq> NaN)
             (sort (remdups (map fst a @ map fst b))))"
    by (simp add: frame_dropna_def concat_axis1_def filter_map comp_def)
  then show ?thesis
    by (simp add: spec_overlap_def filter_sort)
qed

lemma series_dropna_rolling_corr:
  assumes "w \<le> length df"
  shows "series_dropna (rolling_corr w df) = full_windows w df"
proof -
  let ?wc = "\<lambda>i. window_corr (take w (drop (i + 1 - w) df))"
  let ?g = "\<lambda>i. (fst (df ! i), if i + 1 < w then NaN else ?wc i)"
  have split: "[0..<length df] = [0..<w - 1] @ [w - 1..<length df]"
    using assms upt_add_eq_append [of 0 "w - 1" "length df - (w - 1)"] by simp
  have "series_dropna (rolling_corr w df) = map ?g (filter (\<lambda>i. snd (?g i) \<noteq> NaN) [0..<length df])"
    by (simp add: series_dropna_def rolling_corr_def filter_map comp_def case_prod_beta)
  also have "filter (\<lambda>i. snd (?g i) \<noteq> NaN) [0..<length df]
      = filter (\<lambda>i. snd (?g i) \<noteq> NaN) [0..<w - 1] @ filter (\<lambda>i. snd (?g i) \<noteq> NaN) [w - 1..<length df]"
    by (subst split) simp
  also have "filter (\<lambda>i. snd (?g i) \<noteq> NaN) [0..<w - 1] = []"
    by (auto simp: filter_empty_conv)
  also have "filter (\<lambda>i. snd (?g i) \<noteq> NaN) [w - 1..<length df]
      = filter (\<lambda>i. ?wc i \<noteq> NaN) [w - 1..<length df]"
    by (rule filter_cong) auto
  finally have "series_dropna (rolling_corr w df)
      = map ?g (filter (\<lambda>i. ?wc i \<noteq> NaN) [w - 1..<length df])" by simp
  also have "\<dots> = map (\<lambda>i. (fst (df ! i), ?wc i)) (filter (\<lambda>i. ?wc i \<noteq> NaN) [w - 1..<length df])"
    by (rule map_cong) auto
  finally show ?thesis by (simp add: full_windows_def)
qed

text \<open>
  C7: with fewer overlapping observations than the window, \<open>compute_rolling_corr\<close>
  raises the overlap \<open>ValueError\<close>; with at least as many it returns the full windows
  only, so nothing at the first \<open>window - 1\<close> positions.
\<close>

theorem compute_rolling_corr_overlap:
  "(int (spec_overlap ret_a ret_b) < window \<longrightarrow>
      compute_rolling_corr ret_a ret_b window = Inl InsufficientOverlap)
   \<and> (0 \<le> window \<and> window \<le> int (spec_overlap ret_a ret_b) \<longrightarrow>
      compute_rolling_corr ret_a ret_b window
        = Inr (full_windows (nat window) (frame_dropna (concat_axis1 ret_a ret_b))))"
proof (intro conjI impI)
  assume "int (spec_overlap ret_a ret_b) < window"
  then show "compute_rolling_corr ret_a ret_b window = Inl InsufficientOverlap"
    by (simp add: compute_rolling_corr_def Let_def length_frame_dropna)
next
  assume a: "0 \<le> window \<and> window \<le> int (spec_overlap ret_a ret_b)"
  then have "nat window \<le> length (frame_dropna (concat_axis1 ret_a ret_b))"
    unfolding length_frame_dropna by linarith
  from series_dropna_rolling_corr [OF this] a
  show "compute_rolling_corr ret_a ret_b window
        = Inr (full_windows (nat window) (frame_dropna (concat_axis1 ret_a ret_b)))"
    by (simp add: compute_rolling_corr_def Let_def length_frame_dropna)
qed

lemma overlap_example:
  "spec_overlap [(1, NaN), (2, Fin 0.1), (3, Fin 0.2), (4, NaN)]
                [(1, NaN), (2, Fin 0.3), (3, Fin 0.1), (4, Fin 0.2)] = 2"
  by (simp add: spec_overlap_def series_get_def)

theorem compute_rolling_corr_overlap_witness:
  "int (spec_overlap [(1, NaN), (2, Fin 0.1), (3, Fin 0.2), (4, NaN)]
                     [(1, NaN), (2, Fin 0.3), (3, Fin 0.1), (4, Fin 0.2)]) < 3
   \<and> compute_rolling_corr [(1, NaN), (2, Fin 0.1), (3, Fin 0.2), (4, NaN)]
                     [(1, NaN), (2, Fin 0.3), (3, Fin 0.1), (4, Fin 0.2)] 3 = Inl InsufficientOverlap
   \<and> (0 :: int) \<le> 2
   \<and> 2 \<le> int (spec_overlap [(1, NaN), (2, Fin 0.1), (3, Fin 0.2), (4, NaN)]
                     [(1, NaN), (2, Fin 0.3), (3, Fin 0.1), (4, Fin 0.2)])
   \<and> compute_rolling_corr [(1, NaN), (2, Fin 0.1), (3, Fin 0.2), (4, NaN)]
                     [(1, NaN), (2, Fin 0.3), (3, Fin 0.1), (4, Fin 0.2)] 2
      = Inr (full_windows 2 (frame_dropna (concat_axis1 [(1, NaN), (2, Fin 0.1), (3, Fin 0.2), (4, NaN)]
                     [(1, NaN), (2, Fin 0.3), (3, Fin 0.1), (4, Fin 0.2)])))"
proof -
  let ?a = "[(1, NaN), (2, Fin 0.1), (3, Fin 0.2), (4, NaN)] :: series"
  let ?b = "[(1, NaN), (2, Fin 0.3), (3, Fin 0.1), (4, Fin 0.2)] :: series"
  have h1: "int (spec_overlap ?a ?b) < 3" by (simp only: overlap_example)
  have h2: "(0 :: int) \<le> 2 \<and> 2 \<le> int (spec_overlap ?a ?b)" by (simp only: overlap_example) simp
  from compute_rolling_corr_overlap [of ?a ?b 3] h1
  have a: "compute_rolling_corr ?a ?b 3 = Inl InsufficientOverlap" by blast
  from compute_rolling_corr_overlap [of ?a ?b 2] h2
  have b: "compute_rolling_corr ?a ?b 2 = Inr (full_windows (nat 2) (frame_dropna (concat_axis1 ?a ?b)))"
    by blast
  then have b': "compute_rolling_corr ?a ?b 2 = Inr (full_windows 2 (frame_dropna (concat_axis1 ?a ?b)))"
    by simp
  from h1 h2 a b' show ?thesis by blast
qed

section \<open>Results on pdf\_reader.py\<close>

lemma match_here_Some: "match_here U t = Some m \<longleftrightarrow> m = take 7 t \<and> spec_quarter_pattern U (take 7 t)"
  by (cases "(U, t)" rule: match_here.cases) (auto simp: spec_quarter_pattern_def)

lemma match_here_None: "match_here U t = None \<longleftrightarrow> \<not> spec_quarter_pattern U (take 7 t)"
  by (cases "(U, t)" rule: match_here.cases) (auto simp: spec_quarter_pattern_def)

lemma pattern_not_Nil: "\<not> spec_quarter_pattern U (take 7 (drop j t)) " if "length t \<le> j"
  using that by (simp add: spec_quarter_pattern_def)

lemma re_search_Some:
  "re_search U t = Some m \<longleftrightarrow> (\<exists>i < length t. spec_first_match U t i m)"
proof (induction t)
  case Nil
  then show ?case by simp
next
  case (Cons c cs)
  show ?case
  proof (cases "match_here U (c # cs)")
    case (Some m')
    then have p: "m' = take 7 (c # cs)" "spec_quarter_pattern U (take 7 (c # cs))"
      by (simp_all add: match_here_Some)
    have "(\<exists>i < length (c # cs). spec_first_match U (c # cs) i m) \<longleftrightarrow> m = m'"
    proof
      assume "\<exists>i < length (c # cs). spec_first_match U (c # cs) i m"
      then obtain i where i: "spec_first_match U (c # cs) i m" by blast
      have "i = 0"
      proof (rule ccontr)
        assume "i \<noteq> 0"
        then have "0 \<in> set [0..<i]" by simp
        with i have "\<not> spec_quarter_pattern U (take 7 (drop 0 (c # cs)))"
          unfolding spec_first_match_def list_all_iff by blast
        with p show False by simp
      qed
      with i p show "m = m'" by (simp add: spec_first_match_def)
    next
      assume "m = m'"
      with p have "spec_first_match U (c # cs) 0 m" by (simp add: spec_first_match_def)
      then show "\<exists>i < length (c # cs). spec_first_match U (c # cs) i m" by auto
    qed
    with Some show ?thesis by auto
  next
    case None
    then have np: "\<not> spec_quarter_pattern U (take 7 (c # cs))" by (simp add: match_here_None)
    have "(\<exists>i < length (c # cs). spec_first_match U (c # cs) i m) \<longleftrightarrow> (\<exists>i < length cs. spec_first_match U cs i m)"
    proof
      assume "\<exists>i < length (c # cs). spec_first_match U (c # cs) i m"
      then obtain i where il: "i < length (c # cs)" and i: "spec_first_match U (c # cs) i m" by blast
      have "i \<noteq> 0"
      proof
        assume "i = 0"
        with i have "spec_quarter_pattern U (take 7 (c # cs))"
          by (auto simp: spec_first_match_def simp del: take_Cons_numeral)
        with np show False by contradiction
      qed
      then obtain k where k: "i = Suc k" by (cases i) auto
      have "spec_first_match U cs k m"
        using i unfolding k spec_first_match_def list_all_iff
        by (auto simp del: upt_Suc dest: bspec [where x = "Suc _"])
      with il k show "\<exists>i < length cs. spec_first_match U cs i m" by auto
    next
      assume "\<exists>i < length cs. spec_first_match U cs i m"
      then obtain k where kl: "k < length cs" and k: "spec_first_match U cs k m" by blast
      have "spec_first_match U (c # cs) (Suc k) m"
        unfolding spec_first_match_def list_all_iff
      proof (intro conjI ballI)
        show "m = take 7 (drop (Suc k) (c # cs))" using k by (auto simp: spec_first_match_def)
        show "spec_quarter_pattern U m" using k by (auto simp: spec_first_match_def)
        fix j assume "j \<in> set [0..<Suc k]"
        then have jk: "j < Suc k" by (simp only: set_upt atLeastLessThan_iff)
        show "\<not> spec_quarter_pattern U (take 7 (drop j (c # cs)))"
        proof (cases j)
          case 0
          with np show ?thesis by (simp del: take_Cons_numeral)
        next
          case (Suc j')
          with jk have "j' \<in> set [0..<k]" by simp
          with k have "\<not> spec_quarter_pattern U (take 7 (drop j' cs))"
            unfolding spec_first_match_def list_all_iff by blast
          with Suc show ?thesis by simp
        qed
      qed
      with kl show "\<exists>i < length (c # cs). spec_first_match U (c # cs) i m" by auto
    qed
    with None Cons.IH show ?thesis by simp
  qed
qed

lemma re_search_None:
  "re_search U t = None \<longleftrightarrow> (\<forall>i < length t. \<not> spec_quarter_pattern U (take 7 (drop i t)))"
proof (induction t)
  case Nil
  then show ?case by simp
next
  case (Cons c cs)
  have "(\<forall>i < length (c # cs). \<not> spec_quarter_pattern U (take 7 (drop i (c # cs))))
        \<longleftrightarrow> \<not> spec_quarter_pattern U (take 7 (c # cs)) \<and> (\<forall>i < length cs. \<not> spec_quarter_pattern U (take 7 (drop i cs)))"
    by (auto simp: less_Suc_eq_0_disj)
  moreover have "re_search U (c # cs) = None \<longleftrightarrow>
      \<not> spec_quarter_pattern U (take 7 (c # cs)) \<and> re_search U cs = None"
    using match_here_None [of U "c # cs"] by (cases "match_here U (c # cs)") simp_all
  ultimately show ?case using Cons.IH by (simp only:)
qed

lemma spec_period_re_search:
  "spec_period U t p \<longleftrightarrow> p = (case re_search U t of Some m \<Rightarrow> m | None \<Rightarrow> [])"
proof (cases "re_search U t")
  case None
  then show ?thesis
    using re_search_None [of U t] by (auto simp: spec_period_def list_ex_iff)
next
  case (Some m)
  then obtain i where i: "i < length t" "spec_first_match U t i m"
    using re_search_Some by blast
  then have ex: "list_ex (\<lambda>i. spec_quarter_pattern U (take 7 (drop i t))) [0..<length t]"
    unfolding list_ex_iff spec_first_match_def by auto
  have "list_ex (\<lambda>i. spec_first_match U t i p) [0..<length t] \<longleftrightarrow> re_search U t = Some p"
    by (auto simp: re_search_Some list_ex_iff)
  with ex Some show ?thesis by (auto simp: spec_period_def)
qed

lemma strip_empty_iff: "strip U s = [] \<longleftrightarrow> list_all (isspace U) s"
proof -
  have "strip U s = [] \<longleftrightarrow> (\<forall>c \<in> set (dropWhile (isspace U) s). (isspace U) c)"
    by (simp add: strip_def dropWhile_eq_Nil_conv)
  also have "\<dots> \<longleftrightarrow> dropWhile (isspace U) s = []"
  proof
    assume a: "\<forall>c \<in> set (dropWhile (isspace U) s). isspace U c"
    show "dropWhile (isspace U) s = []"
    proof (rule ccontr)
      assume n: "dropWhile (isspace U) s \<noteq> []"
      then have "\<not> isspace U (hd (dropWhile (isspace U) s))" by (rule hd_dropWhile)
      moreover from n have "hd (dropWhile (isspace U) s) \<in> set (dropWhile (isspace U) s)" by simp
      ultimately show False using a by blast
    qed
  next
    assume e: "dropWhile (isspace U) s = []"
    show "\<forall>c \<in> set (dropWhile (isspace U) s). isspace U c" unfolding e by simp
  qed
  also have "\<dots> \<longleftrightarrow> list_all (isspace U) s"
    by (simp add: dropWhile_eq_Nil_conv list_all_iff)
  finally show ?thesis .
qed

lemma set_documents_of_dir:
  "d \<in> set (documents_of_dir U e) \<longleftrightarrow>
     (\<exists>f \<in> set (files e). is_pdf_name (file_name f) \<and> \<not> list_all (isspace U) (extract_text_from_pdf f) \<and>
        d = \<lparr>ticker = str_upper U (entry_name e), doc_id = file_name f,
             doc_text = extract_text_from_pdf f,
             period = (case re_search U (extract_text_from_pdf f) of Some m \<Rightarrow> m | None \<Rightarrow> [])\<rparr>)"
  by (auto simp: documents_of_dir_def Let_def strip_empty_iff split: if_splits)

lemma set_iter_documents:
  "d \<in> set (iter_documents U root_dir) \<longleftrightarrow> (\<exists>e \<in> set root_dir. is_dir e \<and> d \<in> set (documents_of_dir U e))"
  by (auto simp: iter_documents_def split: if_splits)


text \<open>
  C8: whatever the Unicode tables, a document is yielded exactly for the files matching
  \<open>*.pdf\<close> in a subdirectory whose extracted text is not whitespace only. Its ticker is
  the upper-cased name of the subdirectory, its id the file name, its text the
  extracted text and its period the first match of the quarter pattern in the text, or
  the empty string without a match.
\<close>

theorem iter_documents_yields:
  "d \<in> set (iter_documents U root_dir) \<longleftrightarrow>
     (\<exists>e \<in> set root_dir. is_dir e \<and>
        (\<exists>f \<in> set (files e). is_pdf_name (file_name f) \<and>
           \<not> list_all (isspace U) (extract_text_from_pdf f) \<and>
           ticker d = str_upper U (entry_name e) \<and> doc_id d = file_name f \<and>
           doc_text d = extract_text_from_pdf f \<and>
           spec_period U (extract_text_from_pdf f) (period d)))"
  (is "?L \<longleftrightarrow> ?R")
proof
  assume ?L
  then obtain e f where e: "e \<in> set root_dir" "is_dir e" and f: "f \<in> set (files e)"
    "is_pdf_name (file_name f)" "\<not> list_all (isspace U) (extract_text_from_pdf f)"
    and d: "d = \<lparr>ticker = str_upper U (entry_name e), doc_id = file_name f,
             doc_text = extract_text_from_pdf f,
             period = (case re_search U (extract_text_from_pdf f) of Some m \<Rightarrow> m | None \<Rightarrow> [])\<rparr>"
    unfolding set_iter_documents set_documents_of_dir by blast
  from d have "ticker d = str_upper U (entry_name e)" "doc_id d = file_name f"
    "doc_text d = extract_text_from_pdf f" "spec_period U (extract_text_from_pdf f) (period d)"
    by (simp_all add: spec_period_re_search)
  with e f show ?R by blast
next
  assume ?R
  then obtain e f where e: "e \<in> set root_dir" "is_dir e" and f: "f \<in> set (files e)"
    "is_pdf_name (file_name f)" "\<not> list_all (isspace U) (extract_text_from_pdf f)"
    and d: "ticker d = str_upper U (entry_name e)" "doc_id d = file_name f"
    "doc_text d = extract_text_from_pdf f" "spec_period U (extract_text_from_pdf f) (period d)"
    by blast
  from d have "d = \<lparr>ticker = str_upper U (entry_name e), doc_id = file_name f,
             doc_text = extract_text_from_pdf f,
             period = (case re_search U (extract_text_from_pdf f) of Some m \<Rightarrow> m | None \<Rightarrow> [])\<rparr>"
    by (intro Document.equality) (simp_all add: spec_period_re_search)
  with e f show ?L
    unfolding set_iter_documents set_documents_of_dir by blast
qed


text \<open>
  Two runs on the example tables: a page of two no-break spaces is whitespace only, so
  its file is dropped; a file with text is yielded with its ticker and period.
\<close>

lemma nbsp_page_dropped:
  "iter_documents example_tables
     [\<lparr>entry_name = str ''ko'', is_dir = True,
       files = [\<lparr>file_name = str ''b.pdf'', pages = [Some [160, 160], None]\<rparr>]\<rparr>] = []"
  by (simp add: iter_documents_def documents_of_dir_def is_pdf_name_def str_def
      extract_text_from_pdf_def strip_def example_tables_def)

lemma iter_documents_example:
  "iter_documents example_tables
     [\<lparr>entry_name = str ''ko'', is_dir = True,
       files = [\<lparr>file_name = str ''a.pdf'', pages = [Some (str ''Call Q3 2019'')]\<rparr>]\<rparr>]
   = [\<lparr>ticker = str ''KO'', doc_id = str ''a.pdf'', doc_text = str ''Call Q3 2019'',
       period = str ''Q3 2019''\<rparr>]"
  by (simp add: iter_documents_def documents_of_dir_def is_pdf_name_def str_def
      extract_text_from_pdf_def strip_def example_tables_def)

theorem iter_documents_yields_witness:
  "\<lparr>ticker = str ''KO'', doc_id = str ''a.pdf'', doc_text = str ''Call Q3 2019'',
     period = str ''Q3 2019''\<rparr>
     \<in> set (iter_documents example_tables
         [\<lparr>entry_name = str ''ko'', is_dir = True,
           files = [\<lparr>file_name = str ''a.pdf'', pages = [Some (str ''Call Q3 2019'')]\<rparr>,
                    \<lparr>file_name = str ''b.pdf'', pages = [Some [160, 160], None]\<rparr>]\<rparr>])"
proof (rule iffD2 [OF iter_documents_yields])
  have s: "re_search example_tables (str ''Call Q3 2019'') = Some (str ''Q3 2019'')"
    by (simp add: str_def example_tables_def)
  have p: "spec_period example_tables (str ''Call Q3 2019'') (str ''Q3 2019'')"
    unfolding spec_period_re_search s by simp
  have w: "\<not> list_all (isspace example_tables) (str ''Call Q3 2019'')"
    by (simp add: str_def example_tables_def)
  have u: "str_upper example_tables (str ''ko'') = str ''KO''"
    by (simp add: str_def example_tables_def)
  have n: "is_pdf_name (str ''a.pdf'')"
    by (simp add: is_pdf_name_def str_def)
  from p w u n
  show "\<exists>e \<in> set [\<lparr>entry_name = str ''ko'', is_dir = True,
           files = [\<lparr>file_name = str ''a.pdf'', pages = [Some (str ''Call Q3 2019'')]\<rparr>,
                    \<lparr>file_name = str ''b.pdf'', pages = [Some [160, 160], None]\<rparr>]\<rparr>]. is_dir e \<and>
        (\<exists>f \<in> set (files e). is_pdf_name (file_name f) \<and>
           \<not> list_all (isspace example_tables) (extract_text_from_pdf f) \<and>
           ticker \<lparr>ticker = str ''KO'', doc_id = str ''a.pdf'', doc_text = str ''Call Q3 2019'',
                   period = str ''Q3 2019''\<rparr>
             = str_upper example_tables (entry_name e) \<and>
           doc_id \<lparr>ticker = str ''KO'', doc_id = str ''a.pdf'', doc_text = str ''Call Q3 2019'',
                   period = str ''Q3 2019''\<rparr>
             = file_name f \<and>
           doc_text \<lparr>ticker = str ''KO'', doc_id = str ''a.pdf'', doc_text = str ''Call Q3 2019'',
                     period = str ''Q3 2019''\<rparr>
             = extract_text_from_pdf f \<and>
           spec_period example_tables (extract_text_from_pdf f)
             (period \<lparr>ticker = str ''KO'', doc_id = str ''a.pdf'', doc_text = str ''Call Q3 2019'',
                       period = str ''Q3 2019''\<rparr>))"
    by (simp add: extract_text_from_pdf_def)
qed

end
